theory Spec2Isabelle
  imports Main "HOL-Library.AList"
begin

section \<open>Time, values and errors\<close>

text \<open>
  An instant (Python \<^verbatim>\<open>datetime\<close>, always UTC here) is the number of microseconds
  since the epoch, a \<^verbatim>\<open>timedelta\<close> a number of microseconds. The bounds of Python's
  \<^verbatim>\<open>datetime\<close> (years 1 to 9999) are left out: every instant is representable.
  The clock is an argument \<open>now\<close> of each function that reads it.
\<close>

type_synonym datetime = int
type_synonym timedelta = int

definition timedelta_minutes :: "int \<Rightarrow> timedelta" where
  "timedelta_minutes m = m * 60000000"

text \<open>\<^verbatim>\<open>calendar.timegm(t.utctimetuple())\<close>: the whole seconds of an instant, its
  microseconds dropped.\<close>

definition timegm :: "datetime \<Rightarrow> int" where
  "timegm t = t div 1000000"

text \<open>The Python values that occur as claims of a token.\<close>

datatype pyval = PNone | PInt int | PStr string | PDatetime datetime

type_synonym claims = "(string \<times> pyval) list"

text \<open>\<^verbatim>\<open>d.get(k)\<close>: the value at the key, None when the key is absent.\<close>

definition dict_get :: "claims \<Rightarrow> string \<Rightarrow> pyval" where
  "dict_get d k = (case map_of d k of None \<Rightarrow> PNone | Some v \<Rightarrow> v)"

datatype exn =
  JWSError | JWTError | ExpiredSignatureError | JWTClaimsError
  | ValidationError | TypeError

datatype HTTPException =
  HTTPException (status_code: int) (detail: string) (headers: "(string \<times> string) list")

text \<open>\<^verbatim>\<open>str(n)\<close> for an integer, used by the f-strings of the not-found errors.\<close>

function str_nat :: "nat \<Rightarrow> string" where
  "str_nat n =
     (if n < 10 then [char_of (48 + n)]
      else str_nat (n div 10) @ [char_of (48 + n mod 10)])"
  by pat_completeness auto
termination
  by (relation "measure (\<lambda>n. n)") auto

definition str_int :: "int \<Rightarrow> string" where
  "str_int i = (if i < 0 then CHR ''-'' # str_nat (nat (- i)) else str_nat (nat i))"

section \<open>Configuration (app/core/config.py)\<close>

text \<open>
  The settings come from the environment, with defaults; they are an argument of the
  functions that read them.
\<close>

record Settings =
  SECRET_KEY :: string
  ALGORITHM :: string
  ACCESS_TOKEN_EXPIRE_MINUTES :: int

definition default_settings :: Settings where
  "default_settings =
     \<lparr>SECRET_KEY = ''your-secret-key-change-in-production-environment-variable'',
      ALGORITHM = ''HS256'',
      ACCESS_TOKEN_EXPIRE_MINUTES = 30\<rparr>"

section \<open>The token library (jose.jwt), as the service uses it\<close>

text \<open>
  app/auth/jwt.py imports \<^verbatim>\<open>jwt\<close> from the python-jose library, which is not part of
  the repository. Its two entry points are modelled symbolically: a token is either a
  text that does not parse as a signed token, or the key it was signed with, the
  algorithm of its header and its claims; a signature verifies exactly when the
  verifying key is the signing key. The model covers the HMAC algorithms, which take a
  text as key (the default is HS256); another algorithm name is answered by the
  library's error. Of the registered claims it checks \<^verbatim>\<open>exp\<close> and \<^verbatim>\<open>sub\<close>, the two
  the service issues.
\<close>

datatype token =
  Malformed string
  | Jws (signed_with: string) (header_alg: string) (jws_claims: claims)

definition HMAC_ALGORITHMS :: "string list" where
  "HMAC_ALGORITHMS = [''HS256'', ''HS384'', ''HS512'']"

text \<open>
  \<^verbatim>\<open>jwt.encode\<close>: a datetime under \<^verbatim>\<open>exp\<close>, \<^verbatim>\<open>iat\<close> or \<^verbatim>\<open>nbf\<close> becomes its whole
  seconds (\<^verbatim>\<open>timegm(claims[c].utctimetuple())\<close>); the algorithm is checked; a datetime
  left anywhere else cannot be serialised to JSON.
\<close>

definition time_claim :: "string \<times> pyval \<Rightarrow> string \<times> pyval" where
  "time_claim kv =
     (case kv of (k, v) \<Rightarrow>
        (if k \<in> set [''exp'', ''iat'', ''nbf'']
         then (case v of PDatetime t \<Rightarrow> (k, PInt (timegm t)) | _ \<Rightarrow> (k, v))
         else (k, v)))"

definition is_datetime :: "pyval \<Rightarrow> bool" where
  "is_datetime v = (case v of PDatetime t \<Rightarrow> True | _ \<Rightarrow> False)"

definition jwt_encode :: "claims \<Rightarrow> string \<Rightarrow> string \<Rightarrow> exn + token" where
  "jwt_encode cl key algorithm =
     (let cl' = map time_claim cl
      in if algorithm \<notin> set HMAC_ALGORITHMS then Inl JWSError
         else if list_ex (\<lambda>kv. is_datetime (snd kv)) cl' then Inl TypeError
         else Inr (Jws key algorithm cl'))"

text \<open>
  \<^verbatim>\<open>_validate_exp\<close>: absent is accepted; the value is read by \<^verbatim>\<open>int()\<close>; the token
  is expired when \<^verbatim>\<open>exp < now\<close>, both in whole seconds. A text under \<^verbatim>\<open>exp\<close> is
  answered by the claims error here (a text of digits would pass \<^verbatim>\<open>int()\<close> and fail
  in \<^verbatim>\<open>datetime.fromtimestamp\<close> in \<open>decode_token\<close>, which answers None either way).
\<close>

definition validate_exp :: "datetime \<Rightarrow> claims \<Rightarrow> exn option" where
  "validate_exp now cl =
     (case map_of cl ''exp'' of
        None \<Rightarrow> None
      | Some (PInt e) \<Rightarrow> (if e < timegm now then Some ExpiredSignatureError else None)
      | Some (PStr s) \<Rightarrow> Some JWTClaimsError
      | Some _ \<Rightarrow> Some TypeError)"

text \<open>\<^verbatim>\<open>_validate_sub\<close>: a subject, when present, must be a text.\<close>

definition validate_sub :: "claims \<Rightarrow> exn option" where
  "validate_sub cl =
     (case map_of cl ''sub'' of
        None \<Rightarrow> None
      | Some (PStr s) \<Rightarrow> None
      | Some _ \<Rightarrow> Some JWTClaimsError)"

fun jwt_decode :: "datetime \<Rightarrow> token \<Rightarrow> string \<Rightarrow> string list \<Rightarrow> exn + claims" where
  "jwt_decode now (Malformed s) key algorithms = Inl JWTError"
| "jwt_decode now (Jws k alg cl) key algorithms =
     (if alg \<notin> set algorithms then Inl JWTError
      else if k \<noteq> key then Inl JWTError
      else (case validate_exp now cl of
              Some e \<Rightarrow> Inl e
            | None \<Rightarrow> (case validate_sub cl of Some e \<Rightarrow> Inl e | None \<Rightarrow> Inr cl)))"

section \<open>Tokens (app/auth/jwt.py)\<close>

text \<open>
  \<open>TokenPayload\<close> declares \<^verbatim>\<open>sub: str\<close>, and its constructor validates that. The
  authentication gate nevertheless tests the field against None, so the field is an
  optional text here and the test is a branch of the model; the constructor is what
  decides whether None can occur.
\<close>

record TokenPayload =
  sub :: "string option"
  exp :: datetime

record Token =
  access_token :: token
  token_type :: string

definition TokenPayload_new :: "pyval \<Rightarrow> datetime \<Rightarrow> exn + TokenPayload" where
  "TokenPayload_new s e =
     (case s of PStr u \<Rightarrow> Inr \<lparr>sub = Some u, exp = e\<rparr> | _ \<Rightarrow> Inl ValidationError)"

text \<open>\<^verbatim>\<open>datetime.fromtimestamp(x, tz=timezone.utc)\<close> needs a number.\<close>

definition fromtimestamp :: "pyval \<Rightarrow> exn + datetime" where
  "fromtimestamp x = (case x of PInt n \<Rightarrow> Inr (n * 1000000) | _ \<Rightarrow> Inl TypeError)"

text \<open>
  \<open>create_access_token\<close>: \<^verbatim>\<open>if expires_delta:\<close> is false for None and for a zero
  timedelta; both take the configured minutes.
\<close>

definition create_access_token ::
  "Settings \<Rightarrow> datetime \<Rightarrow> claims \<Rightarrow> timedelta option \<Rightarrow> exn + token" where
  "create_access_token settings now data expires_delta =
     (let expire =
            (case expires_delta of
               Some d \<Rightarrow>
                 (if d \<noteq> 0 then now + d
                  else now + timedelta_minutes (ACCESS_TOKEN_EXPIRE_MINUTES settings))
             | None \<Rightarrow> now + timedelta_minutes (ACCESS_TOKEN_EXPIRE_MINUTES settings));
          to_encode = AList.update ''exp'' (PDatetime expire) data
      in jwt_encode to_encode (SECRET_KEY settings) (ALGORITHM settings))"

definition decode_token :: "Settings \<Rightarrow> datetime \<Rightarrow> token \<Rightarrow> TokenPayload option" where
  "decode_token settings now tok =
     (case jwt_decode now tok (SECRET_KEY settings) [ALGORITHM settings] of
        Inl e \<Rightarrow> None
      | Inr payload \<Rightarrow>
          (let username = dict_get payload ''sub''
           in if username = PNone then None
              else (let e = dict_get payload ''exp''
                    in if e = PNone then None
                       else (case fromtimestamp e of
                               Inl x \<Rightarrow> None
                             | Inr d \<Rightarrow>
                                 (case TokenPayload_new username d of
                                    Inl x \<Rightarrow> None
                                  | Inr token_data \<Rightarrow> Some token_data)))))"

section \<open>The authentication gate (app/auth/dependencies.py)\<close>

definition get_current_user :: "Settings \<Rightarrow> datetime \<Rightarrow> token \<Rightarrow> HTTPException + string" where
  "get_current_user settings now tok =
     (case decode_token settings now tok of
        None \<Rightarrow>
          Inl (HTTPException 401 ''Invalid or expired token'' [(''WWW-Authenticate'', ''Bearer'')])
      | Some token_data \<Rightarrow>
          (case sub token_data of
             None \<Rightarrow>
               Inl (HTTPException 401 ''Could not validate credentials''
                      [(''WWW-Authenticate'', ''Bearer'')])
           | Some username \<Rightarrow> Inr username))"

section \<open>Login (app/api/routes.py)\<close>

definition DEMO_USERS :: "(string \<times> string) list" where
  "DEMO_USERS = [(''admin'', ''admin123''), (''user'', ''user123''), (''demo'', ''demo123'')]"

definition login :: "Settings \<Rightarrow> datetime \<Rightarrow> string \<Rightarrow> string \<Rightarrow> HTTPException + Token" where
  "login settings now username password =
     (case map_of DEMO_USERS username of
        None \<Rightarrow> Inl (HTTPException 401 ''Invalid username or password'' [])
      | Some stored_password \<Rightarrow>
          (if password \<noteq> stored_password
           then Inl (HTTPException 401 ''Invalid username or password'' [])
           else (case create_access_token settings now [(''sub'', PStr username)]
                        (Some (timedelta_minutes 30)) of
                   Inl e \<Rightarrow> Inl (HTTPException 500 ''Login error'' [])
                 | Inr t \<Rightarrow> Inr \<lparr>access_token = t, token_type = ''bearer''\<rparr>)))"

section \<open>Todo records (app/models/todo.py)\<close>

text \<open>
  \<open>TodoCreate\<close> adds nothing to \<open>TodoBase\<close>; \<open>Todo\<close> extends it by the
  identifier (named \<open>id_field\<close>, as \<open>id\<close> is the identity function of HOL) and the
  two timestamps.
\<close>

record TodoBase =
  title :: string
  description :: "string option"
  completed :: bool

type_synonym TodoCreate = TodoBase

record Todo = TodoBase +
  id_field :: int
  created_at :: datetime
  updated_at :: datetime

text \<open>The field constraints of \<open>TodoBase\<close>, checked whenever a model is constructed.\<close>

definition TodoBase_valid :: "string \<Rightarrow> string option \<Rightarrow> bool" where
  "TodoBase_valid t d =
     (1 \<le> length t \<and> length t \<le> 200 \<and>
      (case d of None \<Rightarrow> True | Some x \<Rightarrow> length x \<le> 1000))"

definition Todo_new ::
  "int \<Rightarrow> string \<Rightarrow> string option \<Rightarrow> bool \<Rightarrow> datetime \<Rightarrow> datetime \<Rightarrow> exn + Todo" where
  "Todo_new i t d c ca ua =
     (if TodoBase_valid t d
      then Inr \<lparr>title = t, description = d, completed = c,
                id_field = i, created_at = ca, updated_at = ua\<rparr>
      else Inl ValidationError)"

section \<open>Event messages (app/services/kafka_service.py)\<close>

text \<open>
  A message is a dict with text keys. \<open>MIsoformat t\<close> stands for the text that
  \<^verbatim>\<open>t.isoformat()\<close> returns. \<open>publish_message\<close> catches every exception and its
  result is ignored by the handlers, so all that a handler observes of it is that the
  message was handed over: the state keeps the messages in the order of the calls.
\<close>

datatype msgval = MNone | MBool bool | MInt int | MStr string | MIsoformat datetime

type_synonym message = "(string \<times> msgval) list"

definition opt_str :: "string option \<Rightarrow> msgval" where
  "opt_str d = (case d of None \<Rightarrow> MNone | Some x \<Rightarrow> MStr x)"

section \<open>The store and its handlers (app/api/routes.py)\<close>

text \<open>
  \<open>todos_db\<close> is a Python dict, which keeps its keys in insertion order: an
  association list, where \<open>AList.update\<close> overwrites in place or appends, as
  \<^verbatim>\<open>d[k] = v\<close> does, and \<open>AList.delete\<close> removes the key, as \<^verbatim>\<open>d.pop(k)\<close> does.
\<close>

record state =
  todos_db :: "(int \<times> Todo) list"
  todo_id_counter :: int
  published :: "message list"

definition init_state :: state where
  "init_state = \<lparr>todos_db = [], todo_id_counter = 1, published = []\<rparr>"

definition publish_message :: "state \<Rightarrow> message \<Rightarrow> state" where
  "publish_message s m = s\<lparr>published := published s @ [m]\<rparr>"

definition not_found :: "int \<Rightarrow> HTTPException" where
  "not_found todo_id =
     HTTPException 404 (''Todo with ID '' @ str_int todo_id @ '' not found'') []"

definition create_todo ::
  "state \<Rightarrow> datetime \<Rightarrow> string \<Rightarrow> TodoCreate \<Rightarrow> (HTTPException + Todo) \<times> state" where
  "create_todo s now current_user todo =
     (let new_id = todo_id_counter s;
          s1 = s\<lparr>todo_id_counter := todo_id_counter s + 1\<rparr>
      in case Todo_new new_id (title todo) (description todo) (completed todo) now now of
           Inl e \<Rightarrow> (Inl (HTTPException 500 ''Error creating todo'' []), s1)
         | Inr new_todo \<Rightarrow>
             (let s2 = s1\<lparr>todos_db := AList.update new_id new_todo (todos_db s1)\<rparr>;
                  todo_message =
                    [(''id'', MInt (id_field new_todo)),
                     (''title'', MStr (title new_todo)),
                     (''description'', opt_str (description new_todo)),
                     (''completed'', MBool (completed new_todo)),
                     (''created_at'', MIsoformat (created_at new_todo)),
                     (''created_by'', MStr current_user),
                     (''event'', MStr ''todo_created'')]
              in (Inr new_todo, publish_message s2 todo_message)))"

definition get_todos :: "state \<Rightarrow> string \<Rightarrow> (HTTPException + Todo list) \<times> state" where
  "get_todos s current_user = (Inr (map snd (todos_db s)), s)"

definition get_todo :: "state \<Rightarrow> string \<Rightarrow> int \<Rightarrow> (HTTPException + Todo) \<times> state" where
  "get_todo s current_user todo_id =
     (case map_of (todos_db s) todo_id of
        None \<Rightarrow> (Inl (not_found todo_id), s)
      | Some t \<Rightarrow> (Inr t, s))"

definition update_todo ::
  "state \<Rightarrow> datetime \<Rightarrow> string \<Rightarrow> int \<Rightarrow> TodoCreate \<Rightarrow> (HTTPException + Todo) \<times> state" where
  "update_todo s now current_user todo_id todo_update =
     (case map_of (todos_db s) todo_id of
        None \<Rightarrow> (Inl (not_found todo_id), s)
      | Some existing_todo \<Rightarrow>
          (let t = existing_todo\<lparr>title := title todo_update,
                                 description := description todo_update,
                                 completed := completed todo_update,
                                 updated_at := now\<rparr>;
               s1 = s\<lparr>todos_db := AList.update todo_id t (todos_db s)\<rparr>;
               todo_message =
                 [(''id'', MInt (id_field t)),
                  (''title'', MStr (title t)),
                  (''description'', opt_str (description t)),
                  (''completed'', MBool (completed t)),
                  (''updated_at'', MIsoformat (updated_at t)),
                  (''updated_by'', MStr current_user),
                  (''event'', MStr ''todo_updated'')]
           in (Inr t, publish_message s1 todo_message)))"

definition delete_todo :: "state \<Rightarrow> string \<Rightarrow> int \<Rightarrow> (HTTPException + unit) \<times> state" where
  "delete_todo s current_user todo_id =
     (case map_of (todos_db s) todo_id of
        None \<Rightarrow> (Inl (not_found todo_id), s)
      | Some deleted_todo \<Rightarrow>
          (let s1 = s\<lparr>todos_db := AList.delete todo_id (todos_db s)\<rparr>;
               todo_message =
                 [(''id'', MInt (id_field deleted_todo)),
                  (''deleted_by'', MStr current_user),
                  (''event'', MStr ''todo_deleted'')]
           in (Inr (), publish_message s1 todo_message)))"

section \<open>Sequences of operations\<close>

text \<open>
  A mutating request with its arguments: the authenticated subject, the reading of the
  clock where the handler takes one, and the handler's own arguments.
\<close>

datatype op =
  Create string datetime TodoCreate
  | Update string datetime int TodoCreate
  | Delete string int

fun step :: "state \<Rightarrow> op \<Rightarrow> state" where
  "step s (Create u now t) = snd (create_todo s now u t)"
| "step s (Update u now i t) = snd (update_todo s now u i t)"
| "step s (Delete u i) = snd (delete_todo s u i)"

fun run :: "state \<Rightarrow> op list \<Rightarrow> state" where
  "run s [] = s"
| "run s (x # xs) = run (step s x) xs"

text \<open>The ids that the successful Creates of a run returned, and the ids that its
  successful Deletes removed, in the order of the requests.\<close>

fun created_by_op :: "state \<Rightarrow> op \<Rightarrow> int list" where
  "created_by_op s (Create u now t) =
     (case fst (create_todo s now u t) of Inr r \<Rightarrow> [id_field r] | Inl e \<Rightarrow> [])"
| "created_by_op s (Update u now i t) = []"
| "created_by_op s (Delete u i) = []"

fun deleted_by_op :: "state \<Rightarrow> op \<Rightarrow> int list" where
  "deleted_by_op s (Create u now t) = []"
| "deleted_by_op s (Update u now i t) = []"
| "deleted_by_op s (Delete u i) =
     (case fst (delete_todo s u i) of Inr x \<Rightarrow> [i] | Inl e \<Rightarrow> [])"

fun created_ids :: "state \<Rightarrow> op list \<Rightarrow> int list" where
  "created_ids s [] = []"
| "created_ids s (x # xs) = created_by_op s x @ created_ids (step s x) xs"

fun deleted_ids :: "state \<Rightarrow> op list \<Rightarrow> int list" where
  "deleted_ids s [] = []"
| "deleted_ids s (x # xs) = deleted_by_op s x @ deleted_ids (step s x) xs"

text \<open>The store proper: the mapping and the counter, without the messages sent.\<close>

definition store_of :: "state \<Rightarrow> (int \<times> Todo) list \<times> int" where
  "store_of s = (todos_db s, todo_id_counter s)"

definition keys :: "state \<Rightarrow> int set" where
  "keys s = fst ` set (todos_db s)"

text \<open>The invariant of the store: the keys are distinct (it is a dict), each key is the
  id of its record, and the counter is above every key.\<close>

definition store_inv :: "state \<Rightarrow> bool" where
  "store_inv s =
     (distinct (map fst (todos_db s)) \<and>
      list_all (\<lambda>kv. id_field (snd kv) = fst kv \<and> fst kv < todo_id_counter s) (todos_db s))"

section \<open>Example inputs\<close>

definition buy_milk :: TodoCreate where
  "buy_milk = \<lparr>title = ''Buy milk'', description = None, completed = False\<rparr>"

definition buy_oat_milk :: TodoCreate where
  "buy_oat_milk = \<lparr>title = ''Buy oat milk'', description = None, completed = True\<rparr>"

definition milk_todo :: Todo where
  "milk_todo = \<lparr>title = ''Buy milk'', description = None, completed = False,
                 id_field = 1, created_at = 5, updated_at = 5\<rparr>"

definition milk_message :: message where
  "milk_message =
     [(''id'', MInt 1), (''title'', MStr ''Buy milk''), (''description'', MNone),
      (''completed'', MBool False), (''created_at'', MIsoformat 5),
      (''created_by'', MStr ''admin''), (''event'', MStr ''todo_created'')]"

definition one_todo :: state where
  "one_todo = \<lparr>todos_db = [(1, milk_todo)], todo_id_counter = 2, published = [milk_message]\<rparr>"

definition admin_token :: "int \<Rightarrow> token" where
  "admin_token e =
     Jws ''your-secret-key-change-in-production-environment-variable'' ''HS256''
       [(''sub'', PStr ''admin''), (''exp'', PInt e)]"

section \<open>Facts about association lists and the clock\<close>

declare step.simps [simp del]

lemma map_of_update_same: "map_of (AList.update k v al) k = Some v"
  by (simp add: update_conv')

lemma map_of_update_other: "j \<noteq> k \<Longrightarrow> map_of (AList.update k v al) j = map_of al j"
  by (simp add: update_conv')

lemma map_of_delete_same: "map_of (AList.delete k al) k = None"
  by (simp add: delete_conv')

lemma keys_update_present:
  "map_of al k = Some w \<Longrightarrow> map fst (AList.update k v al) = map fst al"
  by (induction al) (auto split: if_splits)

lemma set_update_subset: "set (AList.update k v al) \<subseteq> insert (k, v) (set al)"
  by (induction al) auto

lemma set_delete_subset: "set (AList.delete k al) \<subseteq> set al"
  by (auto simp add: AList.delete_eq)

lemma update_fresh: "k \<notin> fst ` set al \<Longrightarrow> AList.update k v al = al @ [(k, v)]"
  by (induction al) auto

lemma length_delete_present:
  "distinct (map fst al) \<Longrightarrow> k \<in> fst ` set al \<Longrightarrow> Suc (length (AList.delete k al)) = length al"
proof (induction al)
  case Nil
  then show ?case by simp
next
  case (Cons a al)
  show ?case
  proof (cases "fst a = k")
    case True
    with Cons.prems have "k \<notin> fst ` set al" by auto
    then have "AList.delete k al = al" by simp
    with True show ?thesis by (cases a) (simp add: AList.delete_eq)
  next
    case False
    with Cons show ?thesis by (cases a) (auto simp add: AList.delete_eq)
  qed
qed

lemma timegm_mono: "a \<le> b \<Longrightarrow> timegm a \<le> timegm b"
  by (simp add: timegm_def zdiv_mono1)

section \<open>Login and tokens\<close>

lemma issue_sub:
  assumes "ALGORITHM cfg \<in> set HMAC_ALGORITHMS" and "T \<noteq> 0"
  shows "create_access_token cfg t0 [(''sub'', PStr u)] (Some T) =
           Inr (Jws (SECRET_KEY cfg) (ALGORITHM cfg)
                  [(''sub'', PStr u), (''exp'', PInt (timegm (t0 + T)))])"
  using assms
  by (simp add: create_access_token_def jwt_encode_def time_claim_def is_datetime_def Let_def)

lemma issue_fails:
  assumes "ALGORITHM cfg \<notin> set HMAC_ALGORITHMS"
  shows "create_access_token cfg t0 d T = Inl JWSError"
  using assms
  by (simp add: create_access_token_def jwt_encode_def Let_def)

lemma decode_issued:
  "decode_token cfg now
     (Jws (SECRET_KEY cfg) (ALGORITHM cfg) [(''sub'', PStr u), (''exp'', PInt e)]) =
   (if e < timegm now then None else Some \<lparr>sub = Some u, exp = e * 1000000\<rparr>)"
  by (simp add: decode_token_def validate_exp_def validate_sub_def dict_get_def
      fromtimestamp_def TokenPayload_new_def Let_def)

lemma default_hmac: "ALGORITHM default_settings \<in> set HMAC_ALGORITHMS"
  by (simp add: default_settings_def HMAC_ALGORITHMS_def)

lemma issue_default:
  "T \<noteq> 0 \<Longrightarrow>
   create_access_token default_settings t0 [(''sub'', PStr ''admin'')] (Some T) =
     Inr (admin_token (timegm (t0 + T)))"
  using issue_sub [OF default_hmac, of T t0 "''admin''"]
  by (simp add: admin_token_def default_settings_def)

lemma decode_default:
  "decode_token default_settings now (admin_token e) =
     (if e < timegm now then None else Some \<lparr>sub = Some ''admin'', exp = e * 1000000\<rparr>)"
  using decode_issued [of default_settings now "''admin''" e]
  by (simp add: admin_token_def default_settings_def)

text \<open>
  C1, as the code has it. Login with a pair of the credential table, under a configuration whose algorithm
  the token library accepts (the default is one), returns a bearer token, and verifying
  that token at any instant up to its expiry yields the same username, through
  \<open>decode_token\<close> and through the authentication gate; login with any other pair,
  whether the username is absent or the password differs, fails under every
  configuration with status 401 and the one message 'Invalid username or password'.
\<close>

theorem login_table:
  "(ALGORITHM cfg \<in> set HMAC_ALGORITHMS \<and> map_of DEMO_USERS u = Some p \<longrightarrow>
      (\<exists>t. login cfg now u p = Inr \<lparr>access_token = t, token_type = ''bearer''\<rparr>
         \<and> (\<forall>now'. timegm now' \<le> timegm (now + timedelta_minutes 30) \<longrightarrow>
               (\<exists>e. decode_token cfg now' t = Some \<lparr>sub = Some u, exp = e\<rparr>)
               \<and> get_current_user cfg now' t = Inr u)))
   \<and> (map_of DEMO_USERS u \<noteq> Some p \<longrightarrow>
        login cfg now u p = Inl (HTTPException 401 ''Invalid username or password'' []))"
proof (intro conjI impI)
  assume h: "ALGORITHM cfg \<in> set HMAC_ALGORITHMS \<and> map_of DEMO_USERS u = Some p"
  have nz: "timedelta_minutes 30 \<noteq> 0" by (simp add: timedelta_minutes_def)
  from h have alg: "ALGORITHM cfg \<in> set HMAC_ALGORITHMS" by simp
  note iss = issue_sub [OF alg nz, of now u]
  from h show "\<exists>t. login cfg now u p = Inr \<lparr>access_token = t, token_type = ''bearer''\<rparr>
         \<and> (\<forall>now'. timegm now' \<le> timegm (now + timedelta_minutes 30) \<longrightarrow>
               (\<exists>e. decode_token cfg now' t = Some \<lparr>sub = Some u, exp = e\<rparr>)
               \<and> get_current_user cfg now' t = Inr u)"
    by (auto simp add: login_def iss decode_issued get_current_user_def)
next
  assume "map_of DEMO_USERS u \<noteq> Some p"
  then show "login cfg now u p = Inl (HTTPException 401 ''Invalid username or password'' [])"
    by (auto simp add: login_def split: option.splits)
qed

theorem login_table_witness:
  "ALGORITHM default_settings \<in> set HMAC_ALGORITHMS
   \<and> map_of DEMO_USERS ''admin'' = Some ''admin123''
   \<and> login default_settings 0 ''admin'' ''admin123'' =
       Inr \<lparr>access_token = admin_token 1800, token_type = ''bearer''\<rparr>
   \<and> timegm 5000000 \<le> timegm (0 + timedelta_minutes 30)
   \<and> decode_token default_settings 5000000 (admin_token 1800) =
       Some \<lparr>sub = Some ''admin'', exp = 1800000000\<rparr>
   \<and> get_current_user default_settings 5000000 (admin_token 1800) = Inr ''admin''
   \<and> map_of DEMO_USERS ''admin'' \<noteq> Some ''admin12''
   \<and> login default_settings 0 ''admin'' ''admin12'' =
       Inl (HTTPException 401 ''Invalid username or password'' [])
   \<and> map_of DEMO_USERS ''root'' \<noteq> Some ''admin123''
   \<and> login default_settings 0 ''root'' ''admin123'' =
       Inl (HTTPException 401 ''Invalid username or password'' [])"
proof -
  have iss: "create_access_token default_settings 0 [(''sub'', PStr ''admin'')]
               (Some (timedelta_minutes 30)) = Inr (admin_token 1800)"
    using issue_default [of "timedelta_minutes 30" 0]
    by (simp add: timedelta_minutes_def timegm_def)
  have ok: "login default_settings 0 ''admin'' ''admin123'' =
       Inr \<lparr>access_token = admin_token 1800, token_type = ''bearer''\<rparr>"
    by (simp add: login_def DEMO_USERS_def iss)
  have bad1: "login default_settings 0 ''admin'' ''admin12'' =
       Inl (HTTPException 401 ''Invalid username or password'' [])"
    by (simp add: login_def DEMO_USERS_def)
  have bad2: "login default_settings 0 ''root'' ''admin123'' =
       Inl (HTTPException 401 ''Invalid username or password'' [])"
    by (simp add: login_def DEMO_USERS_def)
  have tab: "map_of DEMO_USERS ''admin'' = Some ''admin123''"
       "map_of DEMO_USERS ''admin'' \<noteq> Some ''admin12''"
       "map_of DEMO_USERS ''root'' \<noteq> Some ''admin123''"
    by (simp_all add: DEMO_USERS_def)
  have t: "timegm 5000000 \<le> timegm (0 + timedelta_minutes 30)"
    by (simp add: timegm_def timedelta_minutes_def)
  have dec: "decode_token default_settings 5000000 (admin_token 1800) =
       Some \<lparr>sub = Some ''admin'', exp = 1800000000\<rparr>"
    by (simp add: decode_default timegm_def)
  have gate: "get_current_user default_settings 5000000 (admin_token 1800) = Inr ''admin''"
    by (simp add: get_current_user_def dec)
  from login_table [of default_settings "''admin''" "''admin123''" 0]
    login_table [of default_settings "''admin''" "''admin12''" 0]
    login_table [of default_settings "''root''" "''admin123''" 0]
  show ?thesis
    using default_hmac ok bad1 bad2 tab t dec gate by blast
qed

text \<open>
  C1 as the specification states it fails at two places. Under a configuration that
  names an algorithm for which the secret is no key (RS256 with the default secret),
  the token library raises, and login with a pair of the table answers 500 'Login
  error' instead of a token; and under the default configuration the token that login
  returns at instant 0 is no longer verified at 1801 s, after its 30 minutes.
\<close>

theorem login_table_counterexample:
  "map_of DEMO_USERS ''admin'' = Some ''admin123''
   \<and> login (default_settings\<lparr>ALGORITHM := ''RS256''\<rparr>) 0 ''admin'' ''admin123'' =
       Inl (HTTPException 500 ''Login error'' [])
   \<and> login default_settings 0 ''admin'' ''admin123'' =
       Inr \<lparr>access_token = admin_token 1800, token_type = ''bearer''\<rparr>
   \<and> decode_token default_settings 1801000000 (admin_token 1800) = None"
proof -
  have tab: "map_of DEMO_USERS ''admin'' = Some ''admin123''"
    by (simp add: DEMO_USERS_def)
  have alg: "ALGORITHM (default_settings\<lparr>ALGORITHM := ''RS256''\<rparr>) \<notin> set HMAC_ALGORITHMS"
    by (simp add: HMAC_ALGORITHMS_def)
  have bad: "login (default_settings\<lparr>ALGORITHM := ''RS256''\<rparr>) 0 ''admin'' ''admin123'' =
       Inl (HTTPException 500 ''Login error'' [])"
    by (simp add: login_def tab issue_fails [OF alg])
  have iss: "create_access_token default_settings 0 [(''sub'', PStr ''admin'')]
               (Some (timedelta_minutes 30)) = Inr (admin_token 1800)"
    using issue_default [of "timedelta_minutes 30" 0]
    by (simp add: timedelta_minutes_def timegm_def)
  have ok: "login default_settings 0 ''admin'' ''admin123'' =
       Inr \<lparr>access_token = admin_token 1800, token_type = ''bearer''\<rparr>"
    by (simp add: login_def tab iss)
  have late: "decode_token default_settings 1801000000 (admin_token 1800) = None"
    by (simp add: decode_default timegm_def)
  from tab bad ok late show ?thesis by blast
qed

text \<open>
  C6, as the code has it. A token issued for a subject at \<open>t0\<close> with a time-to-live
  \<open>T\<close> other than zero carries the whole seconds of \<open>t0 + T\<close> as its expiry, and
  verification compares whole seconds with \<open>exp < now\<close>: at every instant whose second
  is not after the second of \<open>t0 + T\<close>, so at every instant up to \<open>t0 + T\<close> and at
  \<open>t0 + T\<close> itself, \<open>decode_token\<close> returns the subject; at every instant whose
  second is after it, so from \<open>t0 + T\<close> plus one second on, it returns the invalid
  result.
\<close>

theorem token_lifetime:
  assumes "create_access_token cfg t0 [(''sub'', PStr u)] (Some T) = Inr tok" and "T \<noteq> 0"
  shows "(timegm now \<le> timegm (t0 + T) \<longrightarrow>
            decode_token cfg now tok = Some \<lparr>sub = Some u, exp = timegm (t0 + T) * 1000000\<rparr>)
       \<and> (timegm (t0 + T) < timegm now \<longrightarrow> decode_token cfg now tok = None)
       \<and> (now \<le> t0 + T \<longrightarrow>
            decode_token cfg now tok = Some \<lparr>sub = Some u, exp = timegm (t0 + T) * 1000000\<rparr>)
       \<and> (t0 + T + 1000000 \<le> now \<longrightarrow> decode_token cfg now tok = None)"
proof -
  have alg: "ALGORITHM cfg \<in> set HMAC_ALGORITHMS"
  proof (rule ccontr)
    assume "ALGORITHM cfg \<notin> set HMAC_ALGORITHMS"
    from issue_fails [OF this] assms(1) show False by simp
  qed
  have tok: "tok = Jws (SECRET_KEY cfg) (ALGORITHM cfg)
                  [(''sub'', PStr u), (''exp'', PInt (timegm (t0 + T)))]"
    using issue_sub [OF alg assms(2), of t0 u] assms(1) by simp
  have late: "timegm (t0 + T) < timegm now" if "t0 + T + 1000000 \<le> now"
  proof -
    have "timegm (t0 + T) + 1 = timegm (t0 + T + 1000000)" by (simp add: timegm_def)
    also have "\<dots> \<le> timegm now" using that by (rule timegm_mono)
    finally show ?thesis by simp
  qed
  show ?thesis
    unfolding tok decode_issued using timegm_mono [of now "t0 + T"] late by auto
qed

theorem token_lifetime_witness:
  "create_access_token default_settings 0 [(''sub'', PStr ''admin'')] (Some 1500000) =
     Inr (admin_token 1)
   \<and> (1500000::int) \<noteq> 0
   \<and> timegm 1999999 \<le> timegm (0 + 1500000)
   \<and> decode_token default_settings 1999999 (admin_token 1) =
       Some \<lparr>sub = Some ''admin'', exp = 1000000\<rparr>
   \<and> timegm (0 + 1500000) < timegm 2000000
   \<and> decode_token default_settings 2000000 (admin_token 1) = None
   \<and> (1400000::int) \<le> 0 + 1500000
   \<and> decode_token default_settings 1400000 (admin_token 1) =
       Some \<lparr>sub = Some ''admin'', exp = 1000000\<rparr>
   \<and> (0::int) + 1500000 + 1000000 \<le> 2500000
   \<and> decode_token default_settings 2500000 (admin_token 1) = None"
proof -
  have iss: "create_access_token default_settings 0 [(''sub'', PStr ''admin'')] (Some 1500000) =
     Inr (admin_token 1)"
    using issue_default [of 1500000 0] by (simp add: timegm_def)
  show ?thesis
    using token_lifetime [OF iss, of 1999999] token_lifetime [OF iss, of 2000000]
      token_lifetime [OF iss, of 1400000] token_lifetime [OF iss, of 2500000]
    by (simp add: iss timegm_def)
qed

text \<open>
  C6 as the specification states it fails at three places. A token issued at instant 0
  with a time-to-live of one second is still verified at the instant of its expiry, and
  still at 1.999999 s, strictly after it; and a time-to-live of zero is taken as no
  time-to-live at all, so that the token lives for the configured 30 minutes.
\<close>

theorem token_lifetime_counterexample:
  "create_access_token default_settings 0 [(''sub'', PStr ''admin'')] (Some 1000000) =
     Inr (admin_token 1)
   \<and> decode_token default_settings (0 + 1000000) (admin_token 1) =
       Some \<lparr>sub = Some ''admin'', exp = 1000000\<rparr>
   \<and> decode_token default_settings 1999999 (admin_token 1) =
       Some \<lparr>sub = Some ''admin'', exp = 1000000\<rparr>
   \<and> create_access_token default_settings 0 [(''sub'', PStr ''admin'')] (Some 0) =
       Inr (admin_token 1800)
   \<and> decode_token default_settings 1000000 (admin_token 1800) =
       Some \<lparr>sub = Some ''admin'', exp = 1800000000\<rparr>"
  by (simp add: decode_default issue_default timegm_def)
    (simp add: create_access_token_def jwt_encode_def time_claim_def is_datetime_def
      default_settings_def HMAC_ALGORITHMS_def admin_token_def timedelta_minutes_def timegm_def)

text \<open>
  C10. Whatever the token, a payload returned by \<open>decode_token\<close> has a subject that is
  a text, never None, so the only failure of the authentication gate is the 401 with
  detail 'Invalid or expired token': its second rejection, 'Could not validate
  credentials', is never taken.
\<close>

theorem gate_second_branch_unreachable:
  "(\<forall>p. decode_token cfg now tok = Some p \<longrightarrow> (\<exists>u. sub p = Some u))
   \<and> (\<forall>e. get_current_user cfg now tok = Inl e \<longrightarrow>
         e = HTTPException 401 ''Invalid or expired token'' [(''WWW-Authenticate'', ''Bearer'')])"
  by (auto simp add: get_current_user_def decode_token_def TokenPayload_new_def Let_def
      split: sum.splits option.splits pyval.splits if_splits)

theorem gate_second_branch_unreachable_witness:
  "decode_token default_settings 0 (admin_token 1) = Some \<lparr>sub = Some ''admin'', exp = 1000000\<rparr>
   \<and> sub \<lparr>sub = Some ''admin'', exp = 1000000\<rparr> = Some ''admin''
   \<and> get_current_user default_settings 0 (Malformed ''abc'') =
       Inl (HTTPException 401 ''Invalid or expired token'' [(''WWW-Authenticate'', ''Bearer'')])"
proof -
  have dec: "decode_token default_settings 0 (admin_token 1) =
               Some \<lparr>sub = Some ''admin'', exp = 1000000\<rparr>"
    by (simp add: decode_default timegm_def)
  have bad: "decode_token default_settings 0 (Malformed ''abc'') = None"
    by (simp add: decode_token_def)
  have gate: "get_current_user default_settings 0 (Malformed ''abc'') =
       Inl (HTTPException 401 ''Invalid or expired token'' [(''WWW-Authenticate'', ''Bearer'')])"
    by (simp add: get_current_user_def bad)
  have fld: "sub \<lparr>sub = Some ''admin'', exp = 1000000\<rparr> = Some ''admin''"
    by simp
  from gate_second_branch_unreachable [of default_settings 0 "admin_token 1"]
    gate_second_branch_unreachable [of default_settings 0 "Malformed ''abc''"]
  show ?thesis using dec fld gate by blast
qed

section \<open>The handlers on one store\<close>

lemma create_milk:
  "create_todo init_state 5 ''admin'' buy_milk = (Inr milk_todo, one_todo)"
  by (simp add: create_todo_def init_state_def buy_milk_def milk_todo_def one_todo_def
      milk_message_def Todo_new_def TodoBase_valid_def publish_message_def opt_str_def Let_def)

lemma milk_valid: "TodoBase_valid (title buy_milk) (description buy_milk)"
  by (simp add: buy_milk_def TodoBase_valid_def)

lemma one_todo_lookup: "map_of (todos_db one_todo) 1 = Some milk_todo"
  by (simp add: one_todo_def)

lemma one_todo_absent: "map_of (todos_db one_todo) 2 = None"
  by (simp add: one_todo_def)

text \<open>
  C2. For every valid input and every state of the store, Create succeeds, and Get on
  the id it returned yields the very record Create returned: its id is the value of the
  counter before the call, both timestamps are the creation instant, and title,
  description and completed are those of the input.
\<close>

theorem create_then_get:
  assumes "TodoBase_valid (title todo) (description todo)"
  shows "\<exists>r s'. create_todo s now u todo = (Inr r, s')
           \<and> get_todo s' v (id_field r) = (Inr r, s')
           \<and> id_field r = todo_id_counter s
           \<and> created_at r = now \<and> updated_at r = now
           \<and> title r = title todo \<and> description r = description todo
           \<and> completed r = completed todo
           \<and> todo_id_counter s' = todo_id_counter s + 1"
  using assms
  by (simp add: create_todo_def get_todo_def Todo_new_def publish_message_def Let_def
      map_of_update_same)

theorem create_then_get_witness:
  "TodoBase_valid (title buy_milk) (description buy_milk)
   \<and> create_todo init_state 5 ''admin'' buy_milk = (Inr milk_todo, one_todo)
   \<and> get_todo one_todo ''user'' 1 = (Inr milk_todo, one_todo)
   \<and> id_field milk_todo = todo_id_counter init_state"
proof -
  have g: "get_todo one_todo ''user'' 1 = (Inr milk_todo, one_todo)"
    by (simp add: get_todo_def one_todo_lookup)
  have i: "id_field milk_todo = todo_id_counter init_state"
    by (simp add: milk_todo_def init_state_def)
  from create_then_get [OF milk_valid, of init_state 5 "''admin''" "''user''"]
  show ?thesis using milk_valid create_milk g i by blast
qed

text \<open>
  C3. For every id present in the store, Update returns the record with id and
  created_at unchanged, with title, description and completed as supplied and with
  updated_at set to the current time, which is not before the previous updated_at when
  the clock has not gone back; the store maps the id to that record, every other id to
  what it mapped to before, in the same order, and the counter is unchanged.
\<close>

theorem update_todo_frame:
  assumes "map_of (todos_db s) i = Some r"
  shows "\<exists>r' s'. update_todo s now u i upd = (Inr r', s')
           \<and> id_field r' = id_field r \<and> created_at r' = created_at r
           \<and> title r' = title upd \<and> description r' = description upd
           \<and> completed r' = completed upd
           \<and> updated_at r' = now
           \<and> (updated_at r \<le> now \<longrightarrow> updated_at r \<le> updated_at r')
           \<and> map_of (todos_db s') i = Some r'
           \<and> (\<forall>j. j \<noteq> i \<longrightarrow> map_of (todos_db s') j = map_of (todos_db s) j)
           \<and> map fst (todos_db s') = map fst (todos_db s)
           \<and> todo_id_counter s' = todo_id_counter s"
  using assms
  by (simp add: update_todo_def publish_message_def Let_def map_of_update_same
      map_of_update_other keys_update_present)

theorem update_todo_frame_witness:
  "map_of (todos_db one_todo) 1 = Some milk_todo
   \<and> fst (update_todo one_todo 9 ''user'' 1 buy_oat_milk) =
       Inr \<lparr>title = ''Buy oat milk'', description = None, completed = True,
            id_field = 1, created_at = 5, updated_at = 9\<rparr>
   \<and> updated_at milk_todo \<le> 9
   \<and> (2::int) \<noteq> 1
   \<and> map_of (todos_db (snd (update_todo one_todo 9 ''user'' 1 buy_oat_milk))) 2 =
       map_of (todos_db one_todo) 2"
proof -
  have u: "fst (update_todo one_todo 9 ''user'' 1 buy_oat_milk) =
       Inr \<lparr>title = ''Buy oat milk'', description = None, completed = True,
            id_field = 1, created_at = 5, updated_at = 9\<rparr>"
    by (simp add: update_todo_def one_todo_lookup Let_def)
      (simp add: milk_todo_def buy_oat_milk_def)
  have t: "updated_at milk_todo \<le> 9" by (simp add: milk_todo_def)
  have n: "(2::int) \<noteq> 1" by simp
  have o: "map_of (todos_db (snd (update_todo one_todo 9 ''user'' 1 buy_oat_milk))) 2 =
       map_of (todos_db one_todo) 2"
    by (simp add: update_todo_def one_todo_lookup Let_def publish_message_def
        map_of_update_other)
  from update_todo_frame [OF one_todo_lookup, of 9 "''user''" buy_oat_milk]
  show ?thesis using one_todo_lookup u t n o by blast
qed

text \<open>
  C4. For every id absent from the store, Get, Update and Delete each return the 404
  not-found error and leave the whole state as it was, mapping and counter included;
  and after a successful Delete of an id, Get and Delete of that id return the 404
  error.
\<close>

theorem absent_id_not_found:
  "(map_of (todos_db s) i = None \<longrightarrow>
      get_todo s u i = (Inl (not_found i), s)
      \<and> update_todo s now u i upd = (Inl (not_found i), s)
      \<and> delete_todo s u i = (Inl (not_found i), s))
   \<and> status_code (not_found i) = 404
   \<and> (\<forall>s'. delete_todo s u i = (Inr (), s') \<longrightarrow>
         get_todo s' v i = (Inl (not_found i), s')
         \<and> delete_todo s' v i = (Inl (not_found i), s'))"
  by (auto simp add: get_todo_def update_todo_def delete_todo_def not_found_def
      publish_message_def Let_def map_of_delete_same split: option.splits)

theorem absent_id_not_found_witness:
  "map_of (todos_db one_todo) 2 = None
   \<and> get_todo one_todo ''user'' 2 =
       (Inl (HTTPException 404 ''Todo with ID 2 not found'' []), one_todo)
   \<and> delete_todo one_todo ''user'' 1 =
       (Inr (), \<lparr>todos_db = [], todo_id_counter = 2,
                published = [milk_message,
                  [(''id'', MInt 1), (''deleted_by'', MStr ''user''),
                   (''event'', MStr ''todo_deleted'')]]\<rparr>)
   \<and> fst (get_todo (snd (delete_todo one_todo ''user'' 1)) ''demo'' 1) =
       Inl (HTTPException 404 ''Todo with ID 1 not found'' [])"
proof -
  have nf2: "not_found 2 = HTTPException 404 ''Todo with ID 2 not found'' []"
    by code_simp
  have nf1: "not_found 1 = HTTPException 404 ''Todo with ID 1 not found'' []"
    by code_simp
  have g: "get_todo one_todo ''user'' 2 =
       (Inl (HTTPException 404 ''Todo with ID 2 not found'' []), one_todo)"
    by (simp add: get_todo_def one_todo_absent nf2)
  have d: "delete_todo one_todo ''user'' 1 =
       (Inr (), \<lparr>todos_db = [], todo_id_counter = 2,
                published = [milk_message,
                  [(''id'', MInt 1), (''deleted_by'', MStr ''user''),
                   (''event'', MStr ''todo_deleted'')]]\<rparr>)"
    by (simp add: delete_todo_def one_todo_lookup Let_def publish_message_def)
      (simp add: one_todo_def milk_todo_def)
  have a: "fst (get_todo (snd (delete_todo one_todo ''user'' 1)) ''demo'' 1) =
       Inl (HTTPException 404 ''Todo with ID 1 not found'' [])"
    by (simp add: d get_todo_def nf1)
  from absent_id_not_found [of one_todo 2 "''user''" 0 buy_milk "''demo''"]
    absent_id_not_found [of one_todo 1 "''user''" 0 buy_milk "''demo''"]
  show ?thesis using one_todo_absent g d a by blast
qed

text \<open>
  C9. The handlers do not look at the authenticated subject: for any two subjects and
  any state, Get, List, Update and Delete return the same value or error and leave the
  same mapping and counter. The subject reaches the messages sent only.
\<close>

theorem subject_blind:
  "fst (get_todo s u i) = fst (get_todo s v i)
   \<and> store_of (snd (get_todo s u i)) = store_of (snd (get_todo s v i))
   \<and> fst (get_todos s u) = fst (get_todos s v)
   \<and> store_of (snd (get_todos s u)) = store_of (snd (get_todos s v))
   \<and> fst (update_todo s now u i upd) = fst (update_todo s now v i upd)
   \<and> store_of (snd (update_todo s now u i upd)) = store_of (snd (update_todo s now v i upd))
   \<and> fst (delete_todo s u i) = fst (delete_todo s v i)
   \<and> store_of (snd (delete_todo s u i)) = store_of (snd (delete_todo s v i))"
  by (simp add: get_todo_def get_todos_def update_todo_def delete_todo_def store_of_def
      publish_message_def Let_def split: option.splits)

text \<open>
  C8, as the code has it. The message of a successful Create is appended to the messages
  sent and carries the id, title, description, completed and created_at of the created
  record, the creator's subject under 'created_by' and the event name 'todo_created'; it
  has no 'updated_at' entry.
\<close>

theorem created_event_payload:
  assumes "create_todo s now u todo = (Inr r, s')"
  shows "published s' = published s @
           [[(''id'', MInt (id_field r)), (''title'', MStr (title r)),
             (''description'', opt_str (description r)),
             (''completed'', MBool (completed r)),
             (''created_at'', MIsoformat (created_at r)),
             (''created_by'', MStr u), (''event'', MStr ''todo_created'')]]
       \<and> map_of (last (published s')) ''updated_at'' = None"
  using assms
  by (auto simp add: create_todo_def Todo_new_def publish_message_def Let_def
      split: if_splits)

theorem created_event_payload_witness:
  "create_todo init_state 5 ''admin'' buy_milk = (Inr milk_todo, one_todo)
   \<and> published one_todo = published init_state @ [milk_message]"
proof -
  have p: "published one_todo = published init_state @ [milk_message]"
    by (simp add: one_todo_def init_state_def)
  from created_event_payload [OF create_milk]
  show ?thesis using create_milk p by blast
qed

text \<open>
  C8 as the specification states it fails: the message of the Create of 'Buy milk' on
  the empty store has no entry for the record's updated_at field.
\<close>

theorem created_event_payload_counterexample:
  "fst (create_todo init_state 5 ''admin'' buy_milk) = Inr milk_todo
   \<and> last (published (snd (create_todo init_state 5 ''admin'' buy_milk))) = milk_message
   \<and> ''updated_at'' \<notin> fst ` set milk_message"
  by (simp add: create_milk) (simp add: one_todo_def milk_message_def)

section \<open>Runs of operations\<close>

lemma step_create_ok:
  assumes "store_inv s" and "TodoBase_valid (title t) (description t)"
  shows "todos_db (step s (Create u now t)) =
           todos_db s @ [(todo_id_counter s,
              \<lparr>title = title t, description = description t, completed = completed t,
               id_field = todo_id_counter s, created_at = now, updated_at = now\<rparr>)]"
    and "todo_id_counter (step s (Create u now t)) = todo_id_counter s + 1"
    and "created_by_op s (Create u now t) = [todo_id_counter s]"
    and "todo_id_counter s \<notin> keys s"
proof -
  have fresh: "todo_id_counter s \<notin> fst ` set (todos_db s)"
    using assms(1) by (auto simp add: store_inv_def list_all_iff)
  then show "todo_id_counter s \<notin> keys s" by (simp add: keys_def)
  show "todos_db (step s (Create u now t)) =
           todos_db s @ [(todo_id_counter s,
              \<lparr>title = title t, description = description t, completed = completed t,
               id_field = todo_id_counter s, created_at = now, updated_at = now\<rparr>)]"
    using assms(2) fresh
    by (simp add: step.simps create_todo_def Todo_new_def publish_message_def Let_def
        update_fresh)
  show "todo_id_counter (step s (Create u now t)) = todo_id_counter s + 1"
    using assms(2)
    by (simp add: step.simps create_todo_def Todo_new_def publish_message_def Let_def)
  show "created_by_op s (Create u now t) = [todo_id_counter s]"
    using assms(2) by (simp add: create_todo_def Todo_new_def publish_message_def Let_def)
qed

lemma step_create_bad:
  assumes "\<not> TodoBase_valid (title t) (description t)"
  shows "todos_db (step s (Create u now t)) = todos_db s"
    and "todo_id_counter (step s (Create u now t)) = todo_id_counter s + 1"
    and "created_by_op s (Create u now t) = []"
  using assms by (simp_all add: step.simps create_todo_def Todo_new_def Let_def)

lemma step_update_absent:
  "map_of (todos_db s) i = None \<Longrightarrow> step s (Update u now i t) = s"
  by (simp add: step.simps update_todo_def)

lemma step_update_present:
  assumes "map_of (todos_db s) i = Some r"
  shows "todos_db (step s (Update u now i t)) =
           AList.update i (r\<lparr>title := title t, description := description t,
                              completed := completed t, updated_at := now\<rparr>) (todos_db s)"
    and "todo_id_counter (step s (Update u now i t)) = todo_id_counter s"
  using assms by (simp_all add: step.simps update_todo_def publish_message_def Let_def)

lemma step_delete_absent:
  "map_of (todos_db s) i = None \<Longrightarrow> step s (Delete u i) = s"
  "map_of (todos_db s) i = None \<Longrightarrow> deleted_by_op s (Delete u i) = []"
  by (simp_all add: step.simps delete_todo_def)

lemma step_delete_present:
  assumes "map_of (todos_db s) i = Some r"
  shows "todos_db (step s (Delete u i)) = AList.delete i (todos_db s)"
    and "todo_id_counter (step s (Delete u i)) = todo_id_counter s"
    and "deleted_by_op s (Delete u i) = [i]"
  using assms by (simp_all add: step.simps delete_todo_def publish_message_def Let_def)

lemma store_inv_step: "store_inv s \<Longrightarrow> store_inv (step s x)"
proof (cases x)
  case (Create u now t)
  assume inv: "store_inv s"
  show ?thesis
  proof (cases "TodoBase_valid (title t) (description t)")
    case True
    from step_create_ok [OF inv True] inv show ?thesis
      unfolding Create by (auto simp add: store_inv_def keys_def list_all_iff)
  next
    case False
    from step_create_bad [OF False] inv show ?thesis
      unfolding Create by (auto simp add: store_inv_def list_all_iff)
  qed
next
  case (Update u now i t)
  assume inv: "store_inv s"
  show ?thesis
  proof (cases "map_of (todos_db s) i")
    case None
    then show ?thesis using inv Update by (simp add: step_update_absent)
  next
    case (Some r)
    then have mem: "(i, r) \<in> set (todos_db s)" by (rule map_of_SomeD)
    have "\<And>kv. kv \<in> set (todos_db (step s (Update u now i t))) \<Longrightarrow>
            id_field (snd kv) = fst kv \<and> fst kv < todo_id_counter s"
      using set_update_subset [of i _ "todos_db s"] mem inv
      unfolding step_update_present(1) [OF Some]
      by (fastforce simp add: store_inv_def list_all_iff)
    moreover have "distinct (map fst (todos_db (step s (Update u now i t))))"
      unfolding step_update_present(1) [OF Some] using inv
      by (simp add: store_inv_def distinct_update)
    ultimately show ?thesis
      unfolding Update
      by (simp add: store_inv_def list_all_iff step_update_present(2) [OF Some])
  qed
next
  case (Delete u i)
  assume inv: "store_inv s"
  show ?thesis
  proof (cases "map_of (todos_db s) i")
    case None
    then show ?thesis using inv Delete by (simp add: step_delete_absent)
  next
    case (Some r)
    show ?thesis
      unfolding Delete using inv set_delete_subset [of i "todos_db s"]
      by (auto simp add: store_inv_def list_all_iff step_delete_present [OF Some]
          distinct_delete)
  qed
qed

lemma store_inv_run: "store_inv s \<Longrightarrow> store_inv (run s ops)"
  by (induction ops arbitrary: s) (simp_all add: store_inv_step)

lemma store_inv_init: "store_inv init_state"
  by (simp add: store_inv_def init_state_def)

text \<open>
  C5. In every state reached from the initial state (empty store, counter 1) by a
  sequence of Create, Update and Delete requests, whatever their arguments and whether
  they succeed or not, each key of the store is the id of the record it maps to, and the
  counter is greater than every key.
\<close>

theorem reachable_invariant:
  "\<forall>(k, r) \<in> set (todos_db (run init_state ops)).
      id_field r = k \<and> k < todo_id_counter (run init_state ops)"
  using store_inv_run [OF store_inv_init, of ops]
  by (auto simp add: store_inv_def list_all_iff)

theorem reachable_invariant_witness:
  "run init_state [Create ''admin'' 5 buy_milk] = one_todo
   \<and> (1, milk_todo) \<in> set (todos_db one_todo)
   \<and> id_field milk_todo = 1 \<and> 1 < todo_id_counter one_todo"
proof -
  have r: "run init_state [Create ''admin'' 5 buy_milk] = one_todo"
    by (simp add: step.simps create_milk)
  have m: "(1, milk_todo) \<in> set (todos_db one_todo)" by (simp add: one_todo_def)
  have i: "id_field milk_todo = 1" by (simp add: milk_todo_def)
  have c: "1 < todo_id_counter one_todo" by (simp add: one_todo_def)
  from reachable_invariant [of "[Create ''admin'' 5 buy_milk]"]
  show ?thesis using r m i c by blast
qed

lemma inv_keys_below: "store_inv s \<Longrightarrow> k \<in> keys s \<Longrightarrow> k < todo_id_counter s"
  by (auto simp add: store_inv_def keys_def list_all_iff)

lemma map_of_keys: "map_of (todos_db s) i = Some r \<Longrightarrow> i \<in> keys s"
  unfolding keys_def by (metis map_of_SomeD fst_conv image_eqI)

text \<open>What one request does to the keys, the counter and the number of records: it adds
  the counter as a key, or it leaves the keys alone, or it removes a key.\<close>

lemma step_effect:
  assumes inv: "store_inv s"
  shows "(created_by_op s x = [todo_id_counter s] \<and> deleted_by_op s x = []
          \<and> keys (step s x) = insert (todo_id_counter s) (keys s)
          \<and> todo_id_counter (step s x) = todo_id_counter s + 1
          \<and> length (todos_db (step s x)) = Suc (length (todos_db s)))
       \<or> (created_by_op s x = [] \<and> deleted_by_op s x = []
          \<and> keys (step s x) = keys s
          \<and> todo_id_counter s \<le> todo_id_counter (step s x)
          \<and> length (todos_db (step s x)) = length (todos_db s))
       \<or> (\<exists>i. created_by_op s x = [] \<and> deleted_by_op s x = [i]
          \<and> i \<in> keys s \<and> keys (step s x) = keys s - {i}
          \<and> todo_id_counter (step s x) = todo_id_counter s
          \<and> Suc (length (todos_db (step s x))) = length (todos_db s))"
proof (cases x)
  case (Create u now t)
  show ?thesis
  proof (cases "TodoBase_valid (title t) (description t)")
    case True
    from step_create_ok [OF inv True] show ?thesis
      unfolding Create by (simp add: keys_def)
  next
    case False
    from step_create_bad [OF False] show ?thesis
      unfolding Create by (simp add: keys_def)
  qed
next
  case (Update u now i t)
  show ?thesis
  proof (cases "map_of (todos_db s) i")
    case None
    then show ?thesis unfolding Update by (simp add: step_update_absent)
  next
    case (Some r)
    have k: "map fst (todos_db (step s (Update u now i t))) = map fst (todos_db s)"
      unfolding step_update_present(1) [OF Some] using Some by (rule keys_update_present)
    have "keys (step s (Update u now i t)) = keys s"
      using arg_cong [OF k, of set] by (simp add: keys_def)
    moreover have "length (todos_db (step s (Update u now i t))) = length (todos_db s)"
      using arg_cong [OF k, of length] by simp
    ultimately show ?thesis
      unfolding Update by (simp add: step_update_present(2) [OF Some])
  qed
next
  case (Delete u i)
  show ?thesis
  proof (cases "map_of (todos_db s) i")
    case None
    then show ?thesis unfolding Delete by (simp add: step_delete_absent delete_todo_def)
  next
    case (Some r)
    have mem: "i \<in> keys s" using Some by (rule map_of_keys)
    have d: "distinct (map fst (todos_db s))" using inv by (simp add: store_inv_def)
    have "keys (step s (Delete u i)) = keys s - {i}"
      unfolding keys_def step_delete_present(1) [OF Some]
      using arg_cong [OF delete_keys [of i "todos_db s"], of set] by auto
    moreover have "Suc (length (todos_db (step s (Delete u i)))) = length (todos_db s)"
      unfolding step_delete_present(1) [OF Some]
      using d mem by (simp add: length_delete_present keys_def)
    ultimately show ?thesis
      unfolding Delete using mem
      by (simp del: deleted_by_op.simps add: step_delete_present [OF Some])
  qed
qed

lemma run_keys:
  "store_inv s \<Longrightarrow>
     keys (run s ops) = (keys s \<union> set (created_ids s ops)) - set (deleted_ids s ops)
     \<and> (\<forall>i \<in> set (created_ids s ops). todo_id_counter s \<le> i)
     \<and> distinct (created_ids s ops)
     \<and> distinct (deleted_ids s ops)
     \<and> set (deleted_ids s ops) \<subseteq> keys s \<union> set (created_ids s ops)
     \<and> int (length (todos_db (run s ops))) =
         int (length (todos_db s)) + int (length (created_ids s ops))
           - int (length (deleted_ids s ops))"
proof (induction ops arbitrary: s)
  case Nil
  then show ?case by simp
next
  case (Cons x xs)
  let ?s1 = "step s x"
  let ?C = "created_ids ?s1 xs"
  let ?D = "deleted_ids ?s1 xs"
  have inv1: "store_inv ?s1" using Cons.prems by (rule store_inv_step)
  note ih = Cons.IH [OF inv1]
  have ihK: "keys (run ?s1 xs) = (keys ?s1 \<union> set ?C) - set ?D" using ih by blast
  have ihC: "\<And>i. i \<in> set ?C \<Longrightarrow> todo_id_counter ?s1 \<le> i" using ih by blast
  have ihdC: "distinct ?C" using ih by blast
  have ihdD: "distinct ?D" using ih by blast
  have ihS: "set ?D \<subseteq> keys ?s1 \<union> set ?C" using ih by blast
  have ihL: "int (length (todos_db (run ?s1 xs))) =
         int (length (todos_db ?s1)) + int (length ?C) - int (length ?D)" using ih by blast
  have below: "\<And>k. k \<in> keys s \<Longrightarrow> k < todo_id_counter s"
    using Cons.prems by (rule inv_keys_below)
  from step_effect [OF Cons.prems, of x]
  consider
    (add) "created_by_op s x = [todo_id_counter s]" "deleted_by_op s x = []"
      "keys ?s1 = insert (todo_id_counter s) (keys s)"
      "todo_id_counter ?s1 = todo_id_counter s + 1"
      "length (todos_db ?s1) = Suc (length (todos_db s))"
    | (same) "created_by_op s x = []" "deleted_by_op s x = []"
      "keys ?s1 = keys s" "todo_id_counter s \<le> todo_id_counter ?s1"
      "length (todos_db ?s1) = length (todos_db s)"
    | (del) i where "created_by_op s x = []" "deleted_by_op s x = [i]"
      "i \<in> keys s" "keys ?s1 = keys s - {i}"
      "todo_id_counter ?s1 = todo_id_counter s"
      "Suc (length (todos_db ?s1)) = length (todos_db s)"
    by blast
  then show ?case
  proof cases
    case add
    have notin: "todo_id_counter s \<notin> set ?C" using ihC add(4) by fastforce
    have k: "keys (run s (x # xs)) =
               (keys s \<union> set (created_ids s (x # xs))) - set (deleted_ids s (x # xs))"
      using ihK add by auto
    have c: "\<forall>i \<in> set (created_ids s (x # xs)). todo_id_counter s \<le> i"
      using ihC add by fastforce
    have dc: "distinct (created_ids s (x # xs))" using ihdC notin add by simp
    have dd: "distinct (deleted_ids s (x # xs))" using ihdD add by simp
    have ss: "set (deleted_ids s (x # xs)) \<subseteq> keys s \<union> set (created_ids s (x # xs))"
      using ihS add by auto
    have l: "int (length (todos_db (run s (x # xs)))) =
         int (length (todos_db s)) + int (length (created_ids s (x # xs)))
           - int (length (deleted_ids s (x # xs)))"
      using ihL add by simp
    from k c dc dd ss l show ?thesis by blast
  next
    case same
    have k: "keys (run s (x # xs)) =
               (keys s \<union> set (created_ids s (x # xs))) - set (deleted_ids s (x # xs))"
      using ihK same by auto
    have c: "\<forall>i \<in> set (created_ids s (x # xs)). todo_id_counter s \<le> i"
      using ihC same by fastforce
    have dc: "distinct (created_ids s (x # xs))" using ihdC same by simp
    have dd: "distinct (deleted_ids s (x # xs))" using ihdD same by simp
    have ss: "set (deleted_ids s (x # xs)) \<subseteq> keys s \<union> set (created_ids s (x # xs))"
      using ihS same by auto
    have l: "int (length (todos_db (run s (x # xs)))) =
         int (length (todos_db s)) + int (length (created_ids s (x # xs)))
           - int (length (deleted_ids s (x # xs)))"
      using ihL same by simp
    from k c dc dd ss l show ?thesis by blast
  next
    case del
    have iC: "i \<notin> set ?C" using ihC [of i] below [OF del(3)] del(5) by auto
    have iD: "i \<notin> set ?D" using ihS iC del(4) by auto
    have k: "keys (run s (x # xs)) =
               (keys s \<union> set (created_ids s (x # xs))) - set (deleted_ids s (x # xs))"
      using ihK del iC by auto
    have c: "\<forall>i \<in> set (created_ids s (x # xs)). todo_id_counter s \<le> i"
      using ihC del by fastforce
    have dc: "distinct (created_ids s (x # xs))" using ihdC del by simp
    have dd: "distinct (deleted_ids s (x # xs))" using ihdD iD del by simp
    have ss: "set (deleted_ids s (x # xs)) \<subseteq> keys s \<union> set (created_ids s (x # xs))"
      using ihS del by auto
    have l: "int (length (todos_db (run s (x # xs)))) =
         int (length (todos_db s)) + int (length (created_ids s (x # xs)))
           - int (length (deleted_ids s (x # xs)))"
      using ihL del by simp
    from k c dc dd ss l show ?thesis by blast
  qed
qed

lemma inv_ids_are_keys: "store_inv s \<Longrightarrow> set (map id_field (map snd (todos_db s))) = keys s"
  by (force simp add: store_inv_def keys_def list_all_iff)

text \<open>
  C7. Starting from the empty store, after any sequence of requests, of which N Creates
  and M Deletes succeeded, the Deletes removed M distinct ids out of the N distinct ids
  created (so M is at most N), List returns exactly N - M records, and the ids of the
  records returned are the created ids without the deleted ones.
\<close>

theorem list_after_creates_and_deletes:
  "\<exists>todos. fst (get_todos (run init_state ops) u) = Inr todos
     \<and> length (deleted_ids init_state ops) \<le> length (created_ids init_state ops)
     \<and> length todos =
         length (created_ids init_state ops) - length (deleted_ids init_state ops)
     \<and> set (map id_field todos) =
         set (created_ids init_state ops) - set (deleted_ids init_state ops)
     \<and> distinct (created_ids init_state ops)
     \<and> distinct (deleted_ids init_state ops)
     \<and> set (deleted_ids init_state ops) \<subseteq> set (created_ids init_state ops)"
proof -
  let ?C = "created_ids init_state ops"
  let ?D = "deleted_ids init_state ops"
  let ?s = "run init_state ops"
  note rk = run_keys [OF store_inv_init, of ops]
  have k0: "keys init_state = {}" by (simp add: keys_def init_state_def)
  have l0: "length (todos_db init_state) = 0" by (simp add: init_state_def)
  have K: "keys ?s = set ?C - set ?D" using rk k0 by simp
  have dC: "distinct ?C" and dD: "distinct ?D" using rk by blast+
  have S: "set ?D \<subseteq> set ?C" using rk k0 by simp
  have L: "int (length (todos_db ?s)) = int (length ?C) - int (length ?D)"
    using rk l0 by simp
  have "card (set ?D) \<le> card (set ?C)" using S by (simp add: card_mono)
  then have le: "length ?D \<le> length ?C"
    using dC dD by (simp add: distinct_card)
  have len: "length (map snd (todos_db ?s)) = length ?C - length ?D"
    using L le by simp
  have ids: "set (map id_field (map snd (todos_db ?s))) = set ?C - set ?D"
    using inv_ids_are_keys [OF store_inv_run [OF store_inv_init, of ops]] K by simp
  show ?thesis
    unfolding get_todos_def using le len ids dC dD S by (simp add: image_image)
qed

theorem list_after_creates_and_deletes_witness:
  "created_ids init_state [Create ''admin'' 5 buy_milk, Delete ''user'' 1] = [1]
   \<and> deleted_ids init_state [Create ''admin'' 5 buy_milk, Delete ''user'' 1] = [1]
   \<and> fst (get_todos (run init_state [Create ''admin'' 5 buy_milk, Delete ''user'' 1]) ''demo'')
       = Inr []"
proof -
  have s1: "step init_state (Create ''admin'' 5 buy_milk) = one_todo"
    by (simp add: step.simps create_milk)
  have d: "delete_todo one_todo ''user'' 1 =
       (Inr (), \<lparr>todos_db = [], todo_id_counter = 2,
                published = [milk_message,
                  [(''id'', MInt 1), (''deleted_by'', MStr ''user''),
                   (''event'', MStr ''todo_deleted'')]]\<rparr>)"
    by (simp add: delete_todo_def one_todo_lookup Let_def publish_message_def)
      (simp add: one_todo_def milk_todo_def)
  have c: "created_ids init_state [Create ''admin'' 5 buy_milk, Delete ''user'' 1] = [1]"
    by (simp add: s1 create_milk) (simp add: milk_todo_def)
  have dl: "deleted_ids init_state [Create ''admin'' 5 buy_milk, Delete ''user'' 1] = [1]"
    by (simp add: s1 d)
  have l: "fst (get_todos (run init_state [Create ''admin'' 5 buy_milk, Delete ''user'' 1])
             ''demo'') = Inr []"
    by (simp add: step.simps create_milk d get_todos_def)
  from list_after_creates_and_deletes
    [of "[Create ''admin'' 5 buy_milk, Delete ''user'' 1]" "''demo''"]
  show ?thesis using c dl l by blast
qed

end
